theory Spec2Isabelle
  imports Complex_Main "HOL-Library.Word"
begin

section \<open>Data model\<close>

text \<open>
  The login controller of the repository (\<^verbatim>\<open>loginUser\<close> and its helpers) is embedded
  function by function. A JavaScript string is a sequence of UTF-16 code units and
  \<^verbatim>\<open>.length\<close> counts those units; a \<^verbatim>\<open>Date\<close> is its \<^verbatim>\<open>getTime()\<close> value,
  an integer number of milliseconds.
\<close>

type_synonym jsstring = "16 word list"

type_synonym time = int

definition ascii :: "string \<Rightarrow> jsstring" where
  "ascii s = map of_char s"

text \<open>
  \<^verbatim>\<open>user.verification\<close>: two flags, the failure counter (a nullable column, so
  \<^verbatim>\<open>undefined\<close>/\<^verbatim>\<open>null\<close> is \<open>None\<close>) and the nullable lock expiry.
\<close>

record verification =
  v_isEmailVerified :: bool
  v_isPhoneVerified :: bool
  v_loginAttempts :: "int option"
  v_blockExpiration :: "time option"

record user =
  u_username :: jsstring
  u_id :: nat
  u_rol :: jsstring
  u_verification :: verification

text \<open>
  Values thrown at run time: a \<^verbatim>\<open>TypeError\<close> of the language, or an opaque error thrown
  by a collaborator (storage, hashing, token signing), identified by a tag.
\<close>

datatype error = TypeError | Thrown nat

text \<open>
  The message table \<^verbatim>\<open>middleware/messages\<close> is not part of the sources at hand, so a
  message is the name of the table entry the code selects, with the arguments the code
  passes to it. \<open>RecoveryLogin\<close> is the string literal written inline in
  \<^verbatim>\<open>handleSuccessfulLogin\<close>.
\<close>

datatype message =
    UserNotVerified
  | NumberNotVerified
  | AccountLocked
  | AccountLockedV1 jsstring
  | IncorrectPassword int
  | UserNotExists jsstring
  | DatabaseError
  | UserLoggedIn
  | RecoveryLogin

text \<open>
  The three shapes of JSON body the controller writes: \<^verbatim>\<open>{ msg }\<close>,
  \<^verbatim>\<open>{ msg, error }\<close> and
  \<^verbatim>\<open>{ msg, token, userId, rol, passwordorrandomPassword }\<close>, where a field that is
  \<^verbatim>\<open>undefined\<close> is \<open>None\<close>.
\<close>

datatype body =
    Msg message
  | MsgError message error
  | Login message jsstring nat jsstring "jsstring option"

record response =
  status :: nat
  body :: body

text \<open>
  \<^verbatim>\<open>res\<close> is the log of the calls \<^verbatim>\<open>res.status(c).json(b)\<close> made during one request, in
  order; \<^verbatim>\<open>res.json(b)\<close> alone has status 200. An HTTP response is transmitted once, so
  the first entry is what the client receives. How the web framework, which is outside
  the repository, treats a later call is not modelled: the log records the call.
\<close>

definition json :: "nat \<Rightarrow> body \<Rightarrow> response list \<Rightarrow> response list" where
  "json code b res = res @ [\<lparr>status = code, body = b\<rparr>]"

text \<open>
  The two readings of the clock (\<^verbatim>\<open>new Date()\<close>) that one request makes: the first in
  \<^verbatim>\<open>isAccountBlocked\<close>, the second in \<^verbatim>\<open>handleBlockExpiration\<close>.
\<close>

record clock =
  atBlockedCheck :: time
  atTimeLeft :: time

text \<open>
  The collaborators imported by the controller. They are parameters of the embedding;
  \<open>'s\<close> is the state of the storage. Each may throw (\<open>Inl\<close>), and a collaborator that
  throws leaves the storage as it was.
\<close>

record 's env =
  getUserByUsername :: "jsstring \<Rightarrow> 's \<Rightarrow> error + user option"
  validatePassword :: "user \<Rightarrow> jsstring \<Rightarrow> error + bool"
  verification_update :: "user \<Rightarrow> int \<Rightarrow> 's \<Rightarrow> error + 's"
  resetLoginAttempts :: "user \<Rightarrow> 's \<Rightarrow> error + 's"
  lockAccount :: "jsstring \<Rightarrow> 's \<Rightarrow> error + 's"
  generateAuthToken :: "user \<Rightarrow> error + jsstring"

text \<open>How the promise returned by the \<^verbatim>\<open>async\<close> controller settles.\<close>

datatype completion = Resolved | Rejected error

section \<open>The controller\<close>

definition MAX_LOGIN_ATTEMPTS :: int where
  "MAX_LOGIN_ATTEMPTS = 5"

definition handleUnverifiedUser :: "response list \<Rightarrow> response list" where
  "handleUnverifiedUser res = json 400 (Msg UserNotVerified) res"

definition sendBadRequest :: "response list \<Rightarrow> message \<Rightarrow> response list" where
  "sendBadRequest res msg = json 400 (Msg msg) res"

definition sendDatabaseError :: "response list \<Rightarrow> error \<Rightarrow> response list" where
  "sendDatabaseError res err = json 500 (MsgError DatabaseError err) res"

definition handleErrorResponse :: "response list \<Rightarrow> error \<Rightarrow> response list" where
  "handleErrorResponse res err = json 500 (MsgError DatabaseError err) res"

text \<open>\<^verbatim>\<open>x || 0\<close> on the counter: a missing value and \<^verbatim>\<open>0\<close> are falsy.\<close>

definition orZero :: "int option \<Rightarrow> int" where
  "orZero x = (case x of None \<Rightarrow> 0 | Some n \<Rightarrow> if n = 0 then 0 else n)"

definition incrementLoginAttempts :: "'s env \<Rightarrow> user \<Rightarrow> 's \<Rightarrow> (error + int) \<times> 's" where
  "incrementLoginAttempts env usr st =
     (let updatedLoginAttempts = orZero (v_loginAttempts (u_verification usr)) + 1 in
      case verification_update env usr updatedLoginAttempts st of
        Inl e \<Rightarrow> (Inl e, st)
      | Inr st' \<Rightarrow> (Inr updatedLoginAttempts, st'))"

definition handleLockedAccount ::
  "'s env \<Rightarrow> jsstring \<Rightarrow> 's \<Rightarrow> response list \<Rightarrow> (error + unit) \<times> 's \<times> response list" where
  "handleLockedAccount env username st res =
     (case lockAccount env username st of
        Inl e \<Rightarrow> (Inl e, st, res)
      | Inr st' \<Rightarrow> (Inr (), st', json 400 (Msg AccountLocked) res))"

definition handleIncorrectPassword ::
  "'s env \<Rightarrow> user \<Rightarrow> 's \<Rightarrow> response list \<Rightarrow> (error + unit) \<times> 's \<times> response list" where
  "handleIncorrectPassword env usr st res =
     (case incrementLoginAttempts env usr st of
        (Inl e, st') \<Rightarrow> (Inl e, st', res)
      | (Inr updatedLoginAttempts, st') \<Rightarrow>
          if updatedLoginAttempts \<ge> MAX_LOGIN_ATTEMPTS
          then handleLockedAccount env (u_username usr) st' res
          else (Inr (), st', sendBadRequest res (IncorrectPassword updatedLoginAttempts)))"

definition handleSuccessfulLogin ::
  "'s env \<Rightarrow> user \<Rightarrow> response list \<Rightarrow> jsstring \<Rightarrow> (error + unit) \<times> response list" where
  "handleSuccessfulLogin env usr res password =
     (let msg = (if length password = 8 then RecoveryLogin else UserLoggedIn) in
      case generateAuthToken env usr of
        Inl e \<Rightarrow> (Inl e, res)
      | Inr token \<Rightarrow>
          (let userId = u_id usr;
               rol = u_rol usr;
               passwordorrandomPassword =
                 (if length password = 8 then Some (ascii ''randomPassword'') else None)
           in (Inr (), json 200 (Login msg token userId rol passwordorrandomPassword) res)))"

definition isEmailVerified :: "user \<Rightarrow> response list \<Rightarrow> bool \<times> response list" where
  "isEmailVerified usr res =
     (if \<not> v_isEmailVerified (u_verification usr) then (False, handleUnverifiedUser res)
      else (True, res))"

definition isPhoneVerified :: "user \<Rightarrow> response list \<Rightarrow> bool \<times> response list" where
  "isPhoneVerified usr res =
     (if \<not> v_isPhoneVerified (u_verification usr)
      then (False, json 400 (Msg NumberNotVerified) res)
      else (True, res))"

definition isUserVerified :: "user \<Rightarrow> response list \<Rightarrow> bool \<times> response list" where
  "isUserVerified usr res =
     (case isEmailVerified usr res of (isEmailValid, res1) \<Rightarrow>
      case isPhoneVerified usr res1 of (isPhoneValid, res2) \<Rightarrow>
        (isEmailValid \<and> isPhoneValid, res2))"

definition isAccountBlocked :: "time \<Rightarrow> user \<Rightarrow> bool" where
  "isAccountBlocked currentDate usr =
     (case v_blockExpiration (u_verification usr) of
        None \<Rightarrow> False
      | Some blockExpiration \<Rightarrow> blockExpiration > currentDate)"

text \<open>
  \<^verbatim>\<open>Math.ceil((blockExpiration.getTime() - currentDate.getTime()) / (60 * 1000))\<close>: a
  division of numbers followed by rounding up, taken here in exact arithmetic.
\<close>

definition minutesLeft :: "time \<Rightarrow> time \<Rightarrow> int" where
  "minutesLeft blockExpiration currentDate =
     \<lceil>real_of_int (blockExpiration - currentDate) / real_of_int (60 * 1000)\<rceil>"

text \<open>\<^verbatim>\<open>toString()\<close> of an integral number: its decimal digits, with a sign.\<close>

definition digit :: "nat \<Rightarrow> 16 word" where
  "digit d = 48 + of_nat d"

function natToString :: "nat \<Rightarrow> jsstring" where
  "natToString n = (if n < 10 then [digit n] else natToString (n div 10) @ [digit (n mod 10)])"
  by pat_completeness auto
termination
  by (relation "measure id") auto

declare natToString.simps [simp del]

definition numberToString :: "int \<Rightarrow> jsstring" where
  "numberToString i = (if i < 0 then 45 # natToString (nat (- i)) else natToString (nat i))"

definition calculateTimeLeft :: "time \<Rightarrow> time \<Rightarrow> jsstring" where
  "calculateTimeLeft blockExpiration currentDate =
     numberToString (minutesLeft blockExpiration currentDate)"

definition sendAccountBlockedResponse :: "response list \<Rightarrow> jsstring \<Rightarrow> response list" where
  "sendAccountBlockedResponse res timeLeft = json 400 (Msg (AccountLockedV1 timeLeft)) res"

text \<open>
  \<^verbatim>\<open>calculateTimeLeft(user.verification.blockExpiration, new Date())\<close> calls
  \<^verbatim>\<open>getTime()\<close> on the stored value, which throws a \<^verbatim>\<open>TypeError\<close> on \<^verbatim>\<open>null\<close>.
\<close>

definition handleBlockExpiration ::
  "clock \<Rightarrow> user \<Rightarrow> response list \<Rightarrow> (error + bool) \<times> response list" where
  "handleBlockExpiration clk usr res =
     (if isAccountBlocked (atBlockedCheck clk) usr then
        (case v_blockExpiration (u_verification usr) of
           None \<Rightarrow> (Inl TypeError, res)
         | Some blockExpiration \<Rightarrow>
             (let timeLeft = calculateTimeLeft blockExpiration (atTimeLeft clk)
              in (Inr True, sendAccountBlockedResponse res timeLeft)))
      else (Inr False, res))"

text \<open>
  \<^verbatim>\<open>verifyUser\<close> returns the user, or \<^verbatim>\<open>null\<close> after writing a rejection. The second
  operand of \<^verbatim>\<open>||\<close> is evaluated only when the first is false.
\<close>

definition verifyUser ::
  "'s env \<Rightarrow> clock \<Rightarrow> jsstring \<Rightarrow> jsstring \<Rightarrow> 's \<Rightarrow> response list
     \<Rightarrow> (error + user option) \<times> response list" where
  "verifyUser env clk username password st res =
     (case getUserByUsername env username st of
        Inl e \<Rightarrow> (Inl e, res)
      | Inr None \<Rightarrow> (Inr None, sendBadRequest res (UserNotExists username))
      | Inr (Some usr) \<Rightarrow>
          (case isUserVerified usr res of (verified, res1) \<Rightarrow>
             if \<not> verified then (Inr None, res1)
             else (case handleBlockExpiration clk usr res1 of
                     (Inl e, res2) \<Rightarrow> (Inl e, res2)
                   | (Inr blocked, res2) \<Rightarrow>
                       if blocked then (Inr None, res2) else (Inr (Some usr), res2))))"

text \<open>
  \<^verbatim>\<open>loginUser\<close>. What is awaited or called inside \<^verbatim>\<open>try\<close> is caught and answered with
  status 500. \<^verbatim>\<open>return handleIncorrectPassword(user, res)\<close> hands the promise back
  without awaiting it, so a rejection of that promise is not caught: the controller's
  own promise rejects and no further response is written.
\<close>

definition loginUser ::
  "'s env \<Rightarrow> clock \<Rightarrow> jsstring \<Rightarrow> jsstring \<Rightarrow> 's \<Rightarrow> response list
     \<Rightarrow> completion \<times> 's \<times> response list" where
  "loginUser env clk username passwordorrandomPassword st res0 =
     (case verifyUser env clk username passwordorrandomPassword st res0 of
        (Inl e, res) \<Rightarrow> (Resolved, st, handleErrorResponse res e)
      | (Inr None, res) \<Rightarrow> (Resolved, st, res)
      | (Inr (Some usr), res) \<Rightarrow>
          (case validatePassword env usr passwordorrandomPassword of
             Inl e \<Rightarrow> (Resolved, st, handleErrorResponse res e)
           | Inr False \<Rightarrow>
               (case handleIncorrectPassword env usr st res of
                  (Inl e, st', res') \<Rightarrow> (Rejected e, st', res')
                | (Inr _, st', res') \<Rightarrow> (Resolved, st', res'))
           | Inr True \<Rightarrow>
               (case resetLoginAttempts env usr st of
                  Inl e \<Rightarrow> (Resolved, st, handleErrorResponse res e)
                | Inr st' \<Rightarrow>
                    (case handleSuccessfulLogin env usr res passwordorrandomPassword of
                       (Inl e, res') \<Rightarrow> (Resolved, st', handleErrorResponse res' e)
                     | (Inr _, res') \<Rightarrow> (Resolved, st', res')))))"

section \<open>The collaborators, from their contracts\<close>

text \<open>
  The storage is the table of accounts. A lookup by username returns the first row with
  that username, and an update addresses the rows with that username.
\<close>

type_synonym store = "user list"

definition updateRows :: "jsstring \<Rightarrow> (verification \<Rightarrow> verification) \<Rightarrow> store \<Rightarrow> store" where
  "updateRows username f st =
     map (\<lambda>r. if u_username r = username then r\<lparr>u_verification := f (u_verification r)\<rparr> else r) st"

text \<open>
  Modelled from the spec: \<^verbatim>\<open>getUserByUsername\<close> of \<^verbatim>\<open>services/user/userService\<close> is not
  among the sources. The contract: resolve the username to an account, or absent.
\<close>

definition spec_getUserByUsername :: "jsstring \<Rightarrow> store \<Rightarrow> error + user option" where
  "spec_getUserByUsername username st = Inr (find (\<lambda>r. u_username r = username) st)"

text \<open>
  Modelled from the spec: the model method \<^verbatim>\<open>user.verification.update\<close> is not among the
  sources. The contract: the new count is persisted on the account's verification record.
\<close>

definition spec_verification_update :: "user \<Rightarrow> int \<Rightarrow> store \<Rightarrow> error + store" where
  "spec_verification_update usr n st =
     Inr (updateRows (u_username usr) (\<lambda>v. v\<lparr>v_loginAttempts := Some n\<rparr>) st)"

text \<open>
  Modelled from the spec: \<^verbatim>\<open>resetLoginAttempts\<close> of \<^verbatim>\<open>services/user/userService\<close> is not
  among the sources. The contract: set the counter to zero and persist.
\<close>

definition spec_resetLoginAttempts :: "user \<Rightarrow> store \<Rightarrow> error + store" where
  "spec_resetLoginAttempts usr st =
     Inr (updateRows (u_username usr) (\<lambda>v. v\<lparr>v_loginAttempts := Some 0\<rparr>) st)"

text \<open>
  Modelled from the spec: \<^verbatim>\<open>lockAccount\<close> of \<^verbatim>\<open>utils/authUtils\<close> is not among the
  sources. The contract: set \<^verbatim>\<open>blockExpiration\<close> to now plus the fixed lock duration;
  nothing else is said to change. The duration and the collaborator's reading of the
  clock are parameters.
\<close>

definition spec_lockAccount :: "int \<Rightarrow> time \<Rightarrow> jsstring \<Rightarrow> store \<Rightarrow> error + store" where
  "spec_lockAccount duration now username st =
     Inr (updateRows username (\<lambda>v. v\<lparr>v_blockExpiration := Some (now + duration)\<rparr>) st)"

text \<open>
  The environment of the contracts. The hashing and the token primitives stay
  parameters: \<open>vp\<close> is \<^verbatim>\<open>validatePassword\<close> and \<open>tok\<close> is \<^verbatim>\<open>generateAuthToken\<close>.
\<close>

definition specEnv ::
  "int \<Rightarrow> time \<Rightarrow> (user \<Rightarrow> jsstring \<Rightarrow> error + bool) \<Rightarrow> (user \<Rightarrow> error + jsstring)
     \<Rightarrow> store env" where
  "specEnv duration lockNow vp tok =
     \<lparr> getUserByUsername = spec_getUserByUsername,
       validatePassword = vp,
       verification_update = spec_verification_update,
       resetLoginAttempts = spec_resetLoginAttempts,
       lockAccount = spec_lockAccount duration lockNow,
       generateAuthToken = tok \<rparr>"

section \<open>Notions used to state the properties\<close>

text \<open>The row a lookup by username finds, and the counter it holds as the code reads it.\<close>

definition account :: "jsstring \<Rightarrow> store \<Rightarrow> user option" where
  "account username st = find (\<lambda>r. u_username r = username) st"

definition counter :: "jsstring \<Rightarrow> store \<Rightarrow> int" where
  "counter username st =
     (case account username st of
        None \<Rightarrow> 0
      | Some usr \<Rightarrow> orZero (v_loginAttempts (u_verification usr)))"

text \<open>
  Reading a rendered number back: the value of a run of decimal digits, with a leading
  minus sign negating it. It says which number a rendered text shows.
\<close>

definition digitValue :: "16 word \<Rightarrow> nat" where
  "digitValue c = unat c - 48"

definition decimalValue :: "jsstring \<Rightarrow> nat" where
  "decimalValue s = foldl (\<lambda>acc c. 10 * acc + digitValue c) 0 s"

definition stringToNumber :: "jsstring \<Rightarrow> int" where
  "stringToNumber s =
     (case s of
        [] \<Rightarrow> 0
      | c # rest \<Rightarrow> if c = 45 then - int (decimalValue rest) else int (decimalValue s))"

text \<open>
  A sequence of requests for one username, each with its own clock readings and
  credential, each starting with a fresh response; the storage is threaded through.
\<close>

fun requests :: "'s env \<Rightarrow> jsstring \<Rightarrow> (clock \<times> jsstring) list \<Rightarrow> 's \<Rightarrow> 's" where
  "requests env username [] st = st"
| "requests env username ((clk, pw) # rest) st =
     requests env username rest (fst (snd (loginUser env clk username pw st [])))"

text \<open>Accounts and collaborators for the concrete instances below.\<close>

definition sampleUser :: "bool \<Rightarrow> bool \<Rightarrow> int option \<Rightarrow> time option \<Rightarrow> user" where
  "sampleUser emailOk phoneOk attempts expiry =
     \<lparr> u_username = ascii ''ana'', u_id = 7, u_rol = ascii ''user'',
       u_verification = \<lparr> v_isEmailVerified = emailOk, v_isPhoneVerified = phoneOk,
                          v_loginAttempts = attempts, v_blockExpiration = expiry \<rparr> \<rparr>"

definition sampleValidate :: "user \<Rightarrow> jsstring \<Rightarrow> error + bool" where
  "sampleValidate usr pw = Inr (pw = ascii ''hunter22'' \<or> pw = ascii ''correct horse'')"

definition sampleToken :: "user \<Rightarrow> error + jsstring" where
  "sampleToken usr = Inr (ascii ''jwt-'' @ u_username usr)"

definition failingToken :: "user \<Rightarrow> error + jsstring" where
  "failingToken usr = Inl (Thrown 1)"

definition sampleEnv :: "time \<Rightarrow> store env" where
  "sampleEnv lockNow = specEnv 180000 lockNow sampleValidate sampleToken"

definition clockAt :: "time \<Rightarrow> clock" where
  "clockAt t = \<lparr> atBlockedCheck = t, atTimeLeft = t \<rparr>"

section \<open>Rounding up and rendering the minutes\<close>

lemma minutesLeft_div [code]: "minutesLeft be now = - ((now - be) div 60000)"
proof -
  have "\<lceil>real_of_int (be - now) / real_of_int 60000\<rceil>
          = - \<lfloor>real_of_int (now - be) / real_of_int 60000\<rfloor>"
    by (simp add: ceiling_def minus_divide_left)
  also have "\<dots> = - ((now - be) div 60000)"
    by (simp only: floor_divide_of_int_eq)
  finally show ?thesis by (simp add: minutesLeft_def)
qed

lemma minutesLeft_positive:
  assumes "now < be"
  shows "1 \<le> minutesLeft be now"
proof -
  have "(now - be) div 60000 < 0"
    using assms by (intro div_neg_pos_less0) simp_all
  then show ?thesis
    unfolding minutesLeft_div by linarith
qed

text \<open>
  When the second clock reading is at or after the expiry, the number rendered is not
  positive.
\<close>

lemma minutesLeft_expired:
  assumes "be \<le> now"
  shows "minutesLeft be now \<le> 0"
proof -
  have "0 \<le> (now - be) div 60000"
    using assms by (simp add: pos_imp_zdiv_nonneg_iff)
  then show ?thesis
    unfolding minutesLeft_div by linarith
qed

text \<open>Rounding up: the result is the least number of whole minutes covering the time left.\<close>

lemma div_bounds: "((a::int) div 60000) * 60000 \<le> a \<and> a < (a div 60000) * 60000 + 60000"
proof -
  define q where "q = a div 60000"
  define r where "r = a mod 60000"
  have "a = q * 60000 + r"
    by (simp add: q_def r_def)
  moreover have "0 \<le> r" and "r < 60000"
    by (simp_all add: r_def)
  ultimately show ?thesis
    unfolding q_def [symmetric] by linarith
qed

lemma minutesLeft_least:
  "(minutesLeft be now - 1) * 60000 < be - now \<and> be - now \<le> minutesLeft be now * 60000"
  unfolding minutesLeft_div using div_bounds [of "now - be"] by (simp add: algebra_simps)

lemma digit_not_zero:
  assumes "0 < d" and "d < 10"
  shows "digit d \<noteq> 48"
proof -
  have "d \<in> {1, 2, 3, 4, 5, 6, 7, 8, 9}"
    using assms by auto
  then show ?thesis
    by (auto simp: digit_def)
qed

lemma natToString_nonempty: "natToString n \<noteq> []"
  by (subst natToString.simps) simp

lemma natToString_not_zero:
  assumes "0 < n"
  shows "natToString n \<noteq> [48]"
proof (cases "n < 10")
  case True
  then show ?thesis
    using assms digit_not_zero by (subst natToString.simps) simp
next
  case False
  then show ?thesis
    using natToString_nonempty [of "n div 10"] by (subst natToString.simps) simp
qed

text \<open>The rendering shows the number: reading it back gives the number rendered.\<close>

lemma digitValue_digit:
  assumes "d < 10"
  shows "digitValue (digit d) = d" and "digit d \<noteq> 45"
proof -
  have "d \<in> {0, 1, 2, 3, 4, 5, 6, 7, 8, 9}"
    using assms by auto
  then show "digitValue (digit d) = d" and "digit d \<noteq> 45"
    by (auto simp: digit_def digitValue_def)
qed

lemma decimalValue_snoc: "decimalValue (s @ [c]) = 10 * decimalValue s + digitValue c"
  by (simp add: decimalValue_def)

lemma decimalValue_natToString: "decimalValue (natToString n) = n"
proof (induction n rule: natToString.induct)
  case (1 n)
  show ?case
  proof (cases "n < 10")
    case True
    then show ?thesis
      by (subst natToString.simps) (simp add: decimalValue_def digitValue_digit)
  next
    case False
    then have "decimalValue (natToString (n div 10)) = n div 10"
      using "1.IH" by simp
    then show ?thesis
      using False
      by (subst natToString.simps) (simp add: decimalValue_snoc digitValue_digit)
  qed
qed

lemma natToString_first: "\<exists>d rest. d < 10 \<and> natToString n = digit d # rest"
proof (induction n rule: natToString.induct)
  case (1 n)
  show ?case
  proof (cases "n < 10")
    case True
    then have "natToString n = digit n # []"
      by (subst natToString.simps) simp
    with True show ?thesis
      by blast
  next
    case False
    then obtain d rest where "d < 10" and "natToString (n div 10) = digit d # rest"
      using "1.IH" by blast
    moreover have "natToString n = natToString (n div 10) @ [digit (n mod 10)]"
      using False by (subst natToString.simps) simp
    ultimately have "natToString n = digit d # (rest @ [digit (n mod 10)])"
      by simp
    with \<open>d < 10\<close> show ?thesis
      by blast
  qed
qed

lemma stringToNumber_numberToString: "stringToNumber (numberToString i) = i"
proof (cases "i < 0")
  case True
  then show ?thesis
    by (simp add: numberToString_def stringToNumber_def decimalValue_natToString)
next
  case False
  obtain d rest where d: "d < 10" and first: "natToString (nat i) = digit d # rest"
    using natToString_first by blast
  have "decimalValue (digit d # rest) = nat i"
    using decimalValue_natToString [of "nat i"] by (simp add: first)
  then show ?thesis
    using False d
    by (simp add: numberToString_def stringToNumber_def first digitValue_digit(2))
qed

section \<open>The paths of one request\<close>

lemma isUserVerified_eq:
  "isUserVerified usr res =
     (v_isEmailVerified (u_verification usr) \<and> v_isPhoneVerified (u_verification usr),
      res @ (if v_isEmailVerified (u_verification usr) then []
             else [\<lparr>status = 400, body = Msg UserNotVerified\<rparr>])
          @ (if v_isPhoneVerified (u_verification usr) then []
             else [\<lparr>status = 400, body = Msg NumberNotVerified\<rparr>]))"
  by (simp add: isUserVerified_def isEmailVerified_def isPhoneVerified_def
      handleUnverifiedUser_def json_def)

lemma loginUser_notFound:
  assumes "getUserByUsername env username st = Inr None"
  shows "loginUser env clk username pw st res =
           (Resolved, st, res @ [\<lparr>status = 400, body = Msg (UserNotExists username)\<rparr>])"
  using assms by (simp add: loginUser_def verifyUser_def sendBadRequest_def json_def)

lemma loginUser_unverified:
  assumes "getUserByUsername env username st = Inr (Some usr)"
    and "\<not> (v_isEmailVerified (u_verification usr) \<and> v_isPhoneVerified (u_verification usr))"
  shows "loginUser env clk username pw st res =
           (Resolved, st,
            res @ (if v_isEmailVerified (u_verification usr) then []
                   else [\<lparr>status = 400, body = Msg UserNotVerified\<rparr>])
                @ (if v_isPhoneVerified (u_verification usr) then []
                   else [\<lparr>status = 400, body = Msg NumberNotVerified\<rparr>]))"
  using assms by (simp add: loginUser_def verifyUser_def isUserVerified_eq)

lemma verifyUser_blocked:
  assumes "getUserByUsername env username st = Inr (Some usr)"
    and "v_isEmailVerified (u_verification usr)" and "v_isPhoneVerified (u_verification usr)"
    and "v_blockExpiration (u_verification usr) = Some be"
    and "atBlockedCheck clk < be"
  shows "verifyUser env clk username pw st res =
           (Inr None, res @ [\<lparr>status = 400,
               body = Msg (AccountLockedV1 (calculateTimeLeft be (atTimeLeft clk)))\<rparr>])"
  using assms
  by (simp add: verifyUser_def isUserVerified_eq handleBlockExpiration_def
      isAccountBlocked_def sendAccountBlockedResponse_def json_def)

lemma loginUser_blocked:
  assumes "getUserByUsername env username st = Inr (Some usr)"
    and "v_isEmailVerified (u_verification usr)" and "v_isPhoneVerified (u_verification usr)"
    and "v_blockExpiration (u_verification usr) = Some be"
    and "atBlockedCheck clk < be"
  shows "loginUser env clk username pw st res =
           (Resolved, st, res @ [\<lparr>status = 400,
               body = Msg (AccountLockedV1 (calculateTimeLeft be (atTimeLeft clk)))\<rparr>])"
  by (simp add: loginUser_def verifyUser_blocked [OF assms])

lemma verifyUser_pass:
  assumes "getUserByUsername env username st = Inr (Some usr)"
    and "v_isEmailVerified (u_verification usr)" and "v_isPhoneVerified (u_verification usr)"
    and "\<not> isAccountBlocked (atBlockedCheck clk) usr"
  shows "verifyUser env clk username pw st res = (Inr (Some usr), res)"
  using assms
  by (simp add: verifyUser_def isUserVerified_eq handleBlockExpiration_def)

lemma loginUser_fault:
  assumes "verifyUser env clk username pw st res = (Inr (Some usr), res)"
    and "validatePassword env usr pw = Inl e"
  shows "loginUser env clk username pw st res =
           (Resolved, st, res @ [\<lparr>status = 500, body = MsgError DatabaseError e\<rparr>])"
  using assms by (simp add: loginUser_def handleErrorResponse_def json_def)

lemma loginUser_incorrect:
  assumes "verifyUser env clk username pw st res = (Inr (Some usr), res)"
    and "validatePassword env usr pw = Inr False"
    and "verification_update env usr (orZero (v_loginAttempts (u_verification usr)) + 1) st
           = Inr st1"
  shows "loginUser env clk username pw st res =
           (if orZero (v_loginAttempts (u_verification usr)) + 1 \<ge> 5 then
              (case lockAccount env (u_username usr) st1 of
                 Inl e \<Rightarrow> (Rejected e, st1, res)
               | Inr st2 \<Rightarrow>
                   (Resolved, st2, res @ [\<lparr>status = 400, body = Msg AccountLocked\<rparr>]))
            else (Resolved, st1, res @ [\<lparr>status = 400, body =
                    Msg (IncorrectPassword (orZero (v_loginAttempts (u_verification usr)) + 1))\<rparr>]))"
  using assms
  by (simp add: loginUser_def handleIncorrectPassword_def incrementLoginAttempts_def
      handleLockedAccount_def MAX_LOGIN_ATTEMPTS_def sendBadRequest_def json_def
      split: sum.splits)

lemma loginUser_correct:
  assumes "verifyUser env clk username pw st res = (Inr (Some usr), res)"
    and "validatePassword env usr pw = Inr True"
    and "resetLoginAttempts env usr st = Inr st1"
  shows "loginUser env clk username pw st res =
           (Resolved, st1,
            (case generateAuthToken env usr of
               Inl e \<Rightarrow> res @ [\<lparr>status = 500, body = MsgError DatabaseError e\<rparr>]
             | Inr token \<Rightarrow> res @ [\<lparr>status = 200, body =
                 Login (if length pw = 8 then RecoveryLogin else UserLoggedIn) token
                   (u_id usr) (u_rol usr)
                   (if length pw = 8 then Some (ascii ''randomPassword'') else None)\<rparr>]))"
  using assms
  by (simp add: loginUser_def handleSuccessfulLogin_def handleErrorResponse_def json_def
      split: sum.splits)

text \<open>
  How many responses one request writes: one, except that an account with neither flag
  set gets two, and that a fault while counting or locking leaves the request unanswered.
\<close>

lemma loginUser_response_count:
  assumes "loginUser env clk username pw st [] = (c, st', res)"
  shows "length res =
           (if c \<noteq> Resolved then 0
            else if (\<exists>usr. getUserByUsername env username st = Inr (Some usr)
                      \<and> \<not> v_isEmailVerified (u_verification usr)
                      \<and> \<not> v_isPhoneVerified (u_verification usr)) then 2
            else 1)"
  using assms
  by (auto simp: loginUser_def verifyUser_def isUserVerified_eq handleBlockExpiration_def
      sendAccountBlockedResponse_def handleErrorResponse_def sendBadRequest_def
      handleIncorrectPassword_def incrementLoginAttempts_def handleLockedAccount_def
      handleSuccessfulLogin_def isAccountBlocked_def json_def Let_def
      split: sum.splits option.splits if_splits bool.splits prod.splits)

section \<open>Lookups in the table\<close>

lemma account_username: "account username st = Some usr \<Longrightarrow> u_username usr = username"
  by (auto simp: account_def find_Some_iff)

lemma account_updateRows_same:
  "account username (updateRows username f st) =
     map_option (\<lambda>r. r\<lparr>u_verification := f (u_verification r)\<rparr>) (account username st)"
  unfolding account_def by (induction st) (auto simp: updateRows_def)

lemma account_updateRows_other:
  "other \<noteq> username \<Longrightarrow> account other (updateRows username f st) = account other st"
  unfolding account_def by (induction st) (auto simp: updateRows_def)

lemma spec_lookup:
  "getUserByUsername (specEnv D lockNow vp tok) username st = Inr (account username st)"
  by (simp add: specEnv_def spec_getUserByUsername_def account_def)

lemmas sample_defs = sampleEnv_def specEnv_def spec_getUserByUsername_def
  spec_verification_update_def spec_resetLoginAttempts_def spec_lockAccount_def
  updateRows_def sampleUser_def sampleValidate_def sampleToken_def clockAt_def ascii_def
  account_def counter_def orZero_def isAccountBlocked_def

section \<open>Properties of one login request, for any collaborators\<close>

text \<open>
  C8. For a username that resolves to no account, one request answers with the
  not-found rejection naming that username and returns the storage as it was; any
  sequence of such requests, whatever their credentials and clock readings, also
  returns the storage as it was.
\<close>

theorem notFound_mutates_nothing:
  assumes "getUserByUsername env username st = Inr None"
  shows "loginUser env clk username pw st [] =
           (Resolved, st, [\<lparr>status = 400, body = Msg (UserNotExists username)\<rparr>])
         \<and> requests env username attempts st = st"
proof
  show "loginUser env clk username pw st [] =
          (Resolved, st, [\<lparr>status = 400, body = Msg (UserNotExists username)\<rparr>])"
    using loginUser_notFound [OF assms, of clk pw "[]"] by simp
  show "requests env username attempts st = st"
  proof (induction attempts)
    case Nil
    show ?case by simp
  next
    case (Cons a rest)
    obtain c p where a: "a = (c, p)"
      by (cases a)
    show ?case
      using Cons.IH by (simp add: a loginUser_notFound [OF assms])
  qed
qed

theorem notFound_mutates_nothing_witness:
  "loginUser (sampleEnv 0) (clockAt 5) (ascii ''bob'') (ascii ''hunter22'')
       [sampleUser True True (Some 2) None] [] =
     (Resolved, [sampleUser True True (Some 2) None],
      [\<lparr>status = 400, body = Msg (UserNotExists (ascii ''bob''))\<rparr>])
   \<and> requests (sampleEnv 0) (ascii ''bob'')
       [(clockAt 5, ascii ''hunter22''), (clockAt 6, ascii ''x''), (clockAt 9, [])]
       [sampleUser True True (Some 2) None] = [sampleUser True True (Some 2) None]"
proof -
  have absent: "getUserByUsername (sampleEnv 0) (ascii ''bob'')
                  [sampleUser True True (Some 2) None] = Inr None"
    by (simp add: sample_defs)
  show ?thesis
    by (rule notFound_mutates_nothing [OF absent])
qed

text \<open>
  C4. For an account whose email is not verified, whatever its phone flag, its lock and
  the credential, the first response written (the one transmitted) is the
  email-not-verified rejection and the storage is returned as it was. Nothing in the
  statement depends on the lock expiry, on the clock or on what checking the credential
  would return. When the phone flag is unset as well, a second call writes the
  phone-not-verified rejection after it.
\<close>

theorem email_unverified_rejected:
  assumes "getUserByUsername env username st = Inr (Some usr)"
    and "\<not> v_isEmailVerified (u_verification usr)"
  shows "loginUser (env\<lparr>validatePassword := vp\<rparr>) clk username pw st [] =
           (Resolved, st,
            \<lparr>status = 400, body = Msg UserNotVerified\<rparr> #
              (if v_isPhoneVerified (u_verification usr) then []
               else [\<lparr>status = 400, body = Msg NumberNotVerified\<rparr>]))"
proof -
  have "getUserByUsername (env\<lparr>validatePassword := vp\<rparr>) username st = Inr (Some usr)"
    using assms(1) by simp
  from loginUser_unverified [OF this, of clk pw "[]"] assms(2)
  show ?thesis by simp
qed

theorem email_unverified_rejected_witness:
  "loginUser ((sampleEnv 0)\<lparr>validatePassword := \<lambda>u p. Inr True\<rparr>) (clockAt 5) (ascii ''ana'')
       (ascii ''hunter22'') [sampleUser False True (Some 2) (Some 1000)] [] =
     (Resolved, [sampleUser False True (Some 2) (Some 1000)],
      [\<lparr>status = 400, body = Msg UserNotVerified\<rparr>])"
proof -
  have found: "getUserByUsername (sampleEnv 0) (ascii ''ana'')
                 [sampleUser False True (Some 2) (Some 1000)]
               = Inr (Some (sampleUser False True (Some 2) (Some 1000)))"
    by (simp add: sample_defs)
  have flag: "\<not> v_isEmailVerified (u_verification (sampleUser False True (Some 2) (Some 1000)))"
    by (simp add: sampleUser_def)
  from email_unverified_rejected [OF found flag, of "\<lambda>u p. Inr True" "clockAt 5" "ascii ''hunter22''"]
  show ?thesis
    by (simp add: sampleUser_def)
qed

text \<open>
  When the lock expiry lies after both clock readings of the request, an account with
  both flags set gets the locked rejection and the storage is returned as it was,
  whatever checking the credential would return. The text the rejection carries reads
  back as the time left at the second reading rounded up to whole minutes: at least 1,
  and the least number of minutes that covers the time left; it is never the text 0.
\<close>

lemma locked_minutes_after_both_readings:
  assumes "getUserByUsername env username st = Inr (Some usr)"
    and "v_isEmailVerified (u_verification usr)" and "v_isPhoneVerified (u_verification usr)"
    and "v_blockExpiration (u_verification usr) = Some be"
    and "atBlockedCheck clk < be" and "atTimeLeft clk < be"
  shows "\<exists>timeLeft.
           loginUser (env\<lparr>validatePassword := vp\<rparr>) clk username pw st [] =
             (Resolved, st, [\<lparr>status = 400, body = Msg (AccountLockedV1 timeLeft)\<rparr>])
           \<and> stringToNumber timeLeft = \<lceil>real_of_int (be - atTimeLeft clk) / 60000\<rceil>
           \<and> 1 \<le> stringToNumber timeLeft
           \<and> (stringToNumber timeLeft - 1) * 60000 < be - atTimeLeft clk
           \<and> be - atTimeLeft clk \<le> stringToNumber timeLeft * 60000
           \<and> timeLeft \<noteq> ascii ''0''"
proof -
  let ?m = "minutesLeft be (atTimeLeft clk)"
  have "getUserByUsername (env\<lparr>validatePassword := vp\<rparr>) username st = Inr (Some usr)"
    using assms(1) by simp
  from loginUser_blocked [OF this assms(2-5), of pw "[]"]
  have answer: "loginUser (env\<lparr>validatePassword := vp\<rparr>) clk username pw st [] =
           (Resolved, st, [\<lparr>status = 400, body = Msg (AccountLockedV1 (numberToString ?m))\<rparr>])"
    by (simp add: calculateTimeLeft_def)
  have shown: "stringToNumber (numberToString ?m) = ?m"
    by (rule stringToNumber_numberToString)
  have ceil: "?m = \<lceil>real_of_int (be - atTimeLeft clk) / 60000\<rceil>"
    by (simp add: minutesLeft_def)
  have pos: "1 \<le> ?m"
    using assms(6) by (rule minutesLeft_positive)
  have not_zero: "numberToString ?m \<noteq> ascii ''0''"
    using pos natToString_not_zero [of "nat ?m"]
    by (simp add: numberToString_def ascii_def)
  have least: "(?m - 1) * 60000 < be - atTimeLeft clk \<and> be - atTimeLeft clk \<le> ?m * 60000"
    by (rule minutesLeft_least)
  have "loginUser (env\<lparr>validatePassword := vp\<rparr>) clk username pw st [] =
          (Resolved, st, [\<lparr>status = 400, body = Msg (AccountLockedV1 (numberToString ?m))\<rparr>])
        \<and> stringToNumber (numberToString ?m) = \<lceil>real_of_int (be - atTimeLeft clk) / 60000\<rceil>
        \<and> 1 \<le> stringToNumber (numberToString ?m)
        \<and> (stringToNumber (numberToString ?m) - 1) * 60000 < be - atTimeLeft clk
        \<and> be - atTimeLeft clk \<le> stringToNumber (numberToString ?m) * 60000
        \<and> numberToString ?m \<noteq> ascii ''0''"
    unfolding shown using answer ceil pos not_zero least by blast
  then show ?thesis
    by (rule exI)
qed

lemma locked_minutes_after_both_readings_example:
  "loginUser ((sampleEnv 0)\<lparr>validatePassword := \<lambda>u p. Inr True\<rparr>) (clockAt 1000)
       (ascii ''ana'') (ascii ''hunter22'') [sampleUser True True (Some 5) (Some 661001)] [] =
     (Resolved, [sampleUser True True (Some 5) (Some 661001)],
      [\<lparr>status = 400, body = Msg (AccountLockedV1 (ascii ''12''))\<rparr>])
   \<and> minutesLeft 661001 1000 = 12
   \<and> stringToNumber (ascii ''12'') = 12"
proof -
  let ?u = "sampleUser True True (Some 5) (Some 661001)"
  have found: "getUserByUsername ((sampleEnv 0)\<lparr>validatePassword := \<lambda>u p. Inr True\<rparr>)
                 (ascii ''ana'') [?u] = Inr (Some ?u)"
    by (simp add: sample_defs)
  have email: "v_isEmailVerified (u_verification ?u)"
    and phone: "v_isPhoneVerified (u_verification ?u)"
    and expiry: "v_blockExpiration (u_verification ?u) = Some 661001"
    by (simp_all add: sampleUser_def)
  have early: "atBlockedCheck (clockAt 1000) < 661001"
    by (simp add: clockAt_def)
  have minutes: "minutesLeft 661001 1000 = 12"
    by (simp add: minutesLeft_div)
  have rendered: "numberToString 12 = ascii ''12''"
    by (simp add: numberToString_def natToString.simps digit_def ascii_def)
  have read_back: "stringToNumber (ascii ''12'') = 12"
    using stringToNumber_numberToString [of 12] by (simp only: rendered)
  from loginUser_blocked [OF found email phone expiry early, of "ascii ''hunter22''" "[]"]
  show ?thesis
    by (simp add: calculateTimeLeft_def clockAt_def minutes rendered read_back)
qed

text \<open>
  C2. An account with both flags set and lock expiry 1000, in a request whose first
  clock reading is 999, before the expiry, and whose second clock reading is 1000: the
  account counts as locked, the request answers with the locked rejection, and the
  minutes left that the rejection carries are the text 0.
\<close>

theorem locked_with_zero_minutes:
  "isAccountBlocked 999 (sampleUser True True (Some 5) (Some 1000))
   \<and> loginUser (sampleEnv 0) \<lparr>atBlockedCheck = 999, atTimeLeft = 1000\<rparr> (ascii ''ana'')
       (ascii ''hunter22'') [sampleUser True True (Some 5) (Some 1000)] [] =
     (Resolved, [sampleUser True True (Some 5) (Some 1000)],
      [\<lparr>status = 400, body = Msg (AccountLockedV1 (ascii ''0''))\<rparr>])
   \<and> stringToNumber (ascii ''0'') = 0"
proof -
  let ?u = "sampleUser True True (Some 5) (Some 1000)"
  let ?clk = "\<lparr>atBlockedCheck = 999, atTimeLeft = 1000\<rparr>"
  have blocked: "isAccountBlocked 999 ?u"
    by (simp add: sample_defs)
  have found: "getUserByUsername (sampleEnv 0) (ascii ''ana'') [?u] = Inr (Some ?u)"
    by (simp add: sample_defs)
  have email: "v_isEmailVerified (u_verification ?u)"
    and phone: "v_isPhoneVerified (u_verification ?u)"
    and expiry: "v_blockExpiration (u_verification ?u) = Some 1000"
    by (simp_all add: sampleUser_def)
  have early: "atBlockedCheck ?clk < 1000"
    by simp
  have rendered: "calculateTimeLeft 1000 1000 = ascii ''0''"
    by (simp add: calculateTimeLeft_def minutesLeft_div numberToString_def natToString.simps
        digit_def ascii_def)
  have read_back: "stringToNumber (ascii ''0'') = 0"
    by (simp add: stringToNumber_def decimalValue_def digitValue_def ascii_def)
  from loginUser_blocked [OF found email phone expiry early, of "ascii ''hunter22''" "[]"]
  show ?thesis
    by (simp add: blocked rendered read_back)
qed

text \<open>
  C6. For an account with both flags set whose stored lock expiry is \<open>T + D\<close>: a
  request whose first clock reading is before \<open>T + D\<close> answers with the locked
  rejection and returns the storage as it was; a request whose first reading is at or
  after \<open>T + D\<close> passes \<^verbatim>\<open>verifyUser\<close>, which writes no response and hands the
  account on, its expiry still stored, and the request continues with the credential
  check on that account and what follows it.
\<close>

theorem lock_window:
  assumes "getUserByUsername env username st = Inr (Some usr)"
    and "v_isEmailVerified (u_verification usr)" and "v_isPhoneVerified (u_verification usr)"
    and "v_blockExpiration (u_verification usr) = Some (T + D)"
  shows "(atBlockedCheck clk < T + D \<longrightarrow>
            loginUser env clk username pw st [] =
              (Resolved, st, [\<lparr>status = 400, body =
                 Msg (AccountLockedV1 (calculateTimeLeft (T + D) (atTimeLeft clk)))\<rparr>]))
         \<and> (T + D \<le> atBlockedCheck clk \<longrightarrow>
              verifyUser env clk username pw st [] = (Inr (Some usr), [])
              \<and> loginUser env clk username pw st [] =
                  (case validatePassword env usr pw of
                     Inl e \<Rightarrow> (Resolved, st, handleErrorResponse [] e)
                   | Inr False \<Rightarrow>
                       (case handleIncorrectPassword env usr st [] of
                          (Inl e, st', res) \<Rightarrow> (Rejected e, st', res)
                        | (Inr _, st', res) \<Rightarrow> (Resolved, st', res))
                   | Inr True \<Rightarrow>
                       (case resetLoginAttempts env usr st of
                          Inl e \<Rightarrow> (Resolved, st, handleErrorResponse [] e)
                        | Inr st' \<Rightarrow>
                            (case handleSuccessfulLogin env usr [] pw of
                               (Inl e, res) \<Rightarrow> (Resolved, st', handleErrorResponse res e)
                             | (Inr _, res) \<Rightarrow> (Resolved, st', res)))))"
proof (intro conjI impI)
  assume "atBlockedCheck clk < T + D"
  from loginUser_blocked [OF assms this, of pw "[]"]
  show "loginUser env clk username pw st [] =
          (Resolved, st, [\<lparr>status = 400, body =
             Msg (AccountLockedV1 (calculateTimeLeft (T + D) (atTimeLeft clk)))\<rparr>])"
    by simp
next
  assume "T + D \<le> atBlockedCheck clk"
  then have "\<not> isAccountBlocked (atBlockedCheck clk) usr"
    using assms(4) by (simp add: isAccountBlocked_def)
  from verifyUser_pass [OF assms(1-3) this]
  show passed: "verifyUser env clk username pw st [] = (Inr (Some usr), [])" .
  show "loginUser env clk username pw st [] =
          (case validatePassword env usr pw of
             Inl e \<Rightarrow> (Resolved, st, handleErrorResponse [] e)
           | Inr False \<Rightarrow>
               (case handleIncorrectPassword env usr st [] of
                  (Inl e, st', res) \<Rightarrow> (Rejected e, st', res)
                | (Inr _, st', res) \<Rightarrow> (Resolved, st', res))
           | Inr True \<Rightarrow>
               (case resetLoginAttempts env usr st of
                  Inl e \<Rightarrow> (Resolved, st, handleErrorResponse [] e)
                | Inr st' \<Rightarrow>
                    (case handleSuccessfulLogin env usr [] pw of
                       (Inl e, res) \<Rightarrow> (Resolved, st', handleErrorResponse res e)
                     | (Inr _, res) \<Rightarrow> (Resolved, st', res))))"
    by (simp add: loginUser_def passed)
qed

theorem lock_window_witness:
  "lockAccount (sampleEnv 1000) (ascii ''ana'') [sampleUser True True (Some 5) None]
     = Inr [sampleUser True True (Some 5) (Some (1000 + 180000))]
   \<and> loginUser (sampleEnv 0) (clockAt 180999) (ascii ''ana'') (ascii ''hunter22'')
       [sampleUser True True (Some 5) (Some (1000 + 180000))] [] =
     (Resolved, [sampleUser True True (Some 5) (Some (1000 + 180000))],
      [\<lparr>status = 400, body = Msg (AccountLockedV1 (ascii ''1''))\<rparr>])
   \<and> verifyUser (sampleEnv 0) (clockAt 181000) (ascii ''ana'') (ascii ''hunter22'')
       [sampleUser True True (Some 5) (Some (1000 + 180000))] [] =
     (Inr (Some (sampleUser True True (Some 5) (Some (1000 + 180000)))), [])"
proof -
  let ?u = "sampleUser True True (Some 5) (Some (1000 + 180000))"
  have locked: "lockAccount (sampleEnv 1000) (ascii ''ana'') [sampleUser True True (Some 5) None]
                  = Inr [?u]"
    by (simp add: sample_defs)
  have found: "getUserByUsername (sampleEnv 0) (ascii ''ana'') [?u] = Inr (Some ?u)"
    by (simp add: sample_defs)
  have email: "v_isEmailVerified (u_verification ?u)"
    and phone: "v_isPhoneVerified (u_verification ?u)"
    and expiry: "v_blockExpiration (u_verification ?u) = Some (1000 + 180000)"
    by (simp_all add: sampleUser_def)
  have inside: "atBlockedCheck (clockAt 180999) < 1000 + 180000"
    and after: "1000 + 180000 \<le> atBlockedCheck (clockAt 181000)"
    by (simp_all add: clockAt_def)
  have minutes: "calculateTimeLeft (1000 + 180000) (atTimeLeft (clockAt 180999)) = ascii ''1''"
    by (simp add: calculateTimeLeft_def minutesLeft_div numberToString_def natToString.simps
        digit_def clockAt_def ascii_def)
  from lock_window [OF found email phone expiry, of "clockAt 180999" "ascii ''hunter22''"]
    lock_window [OF found email phone expiry, of "clockAt 181000" "ascii ''hunter22''"]
    inside after locked minutes
  show ?thesis
    by simp
qed

section \<open>Properties of login requests, against the contracts of the collaborators\<close>

lemma account_after_update:
  assumes "account username st = Some usr"
  shows "account username (updateRows username f st)
           = Some (usr\<lparr>u_verification := f (u_verification usr)\<rparr>)"
  by (simp add: account_updateRows_same assms)

lemma spec_verifyUser_pass:
  assumes "account username st = Some usr"
    and "v_isEmailVerified (u_verification usr)" and "v_isPhoneVerified (u_verification usr)"
    and "\<not> isAccountBlocked (atBlockedCheck clk) usr"
  shows "verifyUser (specEnv D lockNow vp tok) clk username pw st res = (Inr (Some usr), res)"
  by (rule verifyUser_pass) (simp_all add: spec_lookup assms)

lemma spec_fault:
  assumes "account username st = Some usr"
    and "v_isEmailVerified (u_verification usr)" and "v_isPhoneVerified (u_verification usr)"
    and "\<not> isAccountBlocked (atBlockedCheck clk) usr"
    and "vp usr pw = Inl e"
  shows "loginUser (specEnv D lockNow vp tok) clk username pw st res =
           (Resolved, st, res @ [\<lparr>status = 500, body = MsgError DatabaseError e\<rparr>])"
proof -
  have "validatePassword (specEnv D lockNow vp tok) usr pw = Inl e"
    using assms(5) by (simp add: specEnv_def)
  from loginUser_fault [OF spec_verifyUser_pass [OF assms(1-4)] this]
  show ?thesis .
qed

lemma spec_incorrect:
  assumes "account username st = Some usr"
    and "v_isEmailVerified (u_verification usr)" and "v_isPhoneVerified (u_verification usr)"
    and "\<not> isAccountBlocked (atBlockedCheck clk) usr"
    and "vp usr pw = Inr False"
  shows "loginUser (specEnv D lockNow vp tok) clk username pw st res =
           (if orZero (v_loginAttempts (u_verification usr)) + 1 \<ge> 5 then
              (Resolved,
               updateRows username (\<lambda>v. v\<lparr>v_blockExpiration := Some (lockNow + D)\<rparr>)
                 (updateRows username
                    (\<lambda>v. v\<lparr>v_loginAttempts :=
                              Some (orZero (v_loginAttempts (u_verification usr)) + 1)\<rparr>) st),
               res @ [\<lparr>status = 400, body = Msg AccountLocked\<rparr>])
            else
              (Resolved,
               updateRows username
                 (\<lambda>v. v\<lparr>v_loginAttempts :=
                           Some (orZero (v_loginAttempts (u_verification usr)) + 1)\<rparr>) st,
               res @ [\<lparr>status = 400, body =
                  Msg (IncorrectPassword (orZero (v_loginAttempts (u_verification usr)) + 1))\<rparr>]))"
proof -
  let ?env = "specEnv D lockNow vp tok"
  let ?n = "orZero (v_loginAttempts (u_verification usr)) + 1"
  have name: "u_username usr = username"
    using assms(1) by (rule account_username)
  have rejected: "validatePassword ?env usr pw = Inr False"
    using assms(5) by (simp add: specEnv_def)
  have counted: "verification_update ?env usr ?n st
                   = Inr (updateRows username (\<lambda>v. v\<lparr>v_loginAttempts := Some ?n\<rparr>) st)"
    by (simp add: specEnv_def spec_verification_update_def name)
  from loginUser_incorrect [OF spec_verifyUser_pass [OF assms(1-4)] rejected counted]
  show ?thesis
    by (simp add: specEnv_def spec_lockAccount_def name)
qed

lemma spec_correct:
  assumes "account username st = Some usr"
    and "v_isEmailVerified (u_verification usr)" and "v_isPhoneVerified (u_verification usr)"
    and "\<not> isAccountBlocked (atBlockedCheck clk) usr"
    and "vp usr pw = Inr True"
  shows "loginUser (specEnv D lockNow vp tok) clk username pw st res =
           (Resolved, updateRows username (\<lambda>v. v\<lparr>v_loginAttempts := Some 0\<rparr>) st,
            (case tok usr of
               Inl e \<Rightarrow> res @ [\<lparr>status = 500, body = MsgError DatabaseError e\<rparr>]
             | Inr token \<Rightarrow> res @ [\<lparr>status = 200, body =
                 Login (if length pw = 8 then RecoveryLogin else UserLoggedIn) token
                   (u_id usr) (u_rol usr)
                   (if length pw = 8 then Some (ascii ''randomPassword'') else None)\<rparr>]))"
proof -
  let ?env = "specEnv D lockNow vp tok"
  have name: "u_username usr = username"
    using assms(1) by (rule account_username)
  have accepted: "validatePassword ?env usr pw = Inr True"
    using assms(5) by (simp add: specEnv_def)
  have reset: "resetLoginAttempts ?env usr st
                 = Inr (updateRows username (\<lambda>v. v\<lparr>v_loginAttempts := Some 0\<rparr>) st)"
    by (simp add: specEnv_def spec_resetLoginAttempts_def name)
  from loginUser_correct [OF spec_verifyUser_pass [OF assms(1-4)] accepted reset]
  show ?thesis
    by (simp add: specEnv_def)
qed

lemma spec_turned_away:
  assumes "account username st = Some usr"
    and "\<not> (v_isEmailVerified (u_verification usr) \<and> v_isPhoneVerified (u_verification usr)
            \<and> \<not> isAccountBlocked (atBlockedCheck clk) usr)"
  shows "fst (snd (loginUser (specEnv D lockNow vp tok) clk username pw st res)) = st"
proof (cases "v_isEmailVerified (u_verification usr) \<and> v_isPhoneVerified (u_verification usr)")
  case False
  have "getUserByUsername (specEnv D lockNow vp tok) username st = Inr (Some usr)"
    by (simp add: spec_lookup assms(1))
  from loginUser_unverified [OF this False] show ?thesis
    by simp
next
  case True
  then have "isAccountBlocked (atBlockedCheck clk) usr"
    using assms(2) by simp
  then obtain be where be: "v_blockExpiration (u_verification usr) = Some be"
    and future: "atBlockedCheck clk < be"
    by (auto simp: isAccountBlocked_def split: option.splits)
  have "getUserByUsername (specEnv D lockNow vp tok) username st = Inr (Some usr)"
    by (simp add: spec_lookup assms(1))
  from loginUser_blocked [OF this _ _ be future] True show ?thesis
    by simp
qed

lemma counter_updateRows_same:
  assumes "account username st = Some usr"
  shows "counter username (updateRows username f st)
           = orZero (v_loginAttempts (f (u_verification usr)))"
  by (simp add: counter_def account_after_update [OF assms])

lemma counter_updateRows_other:
  "other \<noteq> username \<Longrightarrow> counter other (updateRows username f st) = counter other st"
  by (simp add: counter_def account_updateRows_other)

lemma orZero_Some: "orZero (Some n) = n"
  by (simp add: orZero_def)

text \<open>
  What one request does to the counter of any account: nothing, one more, or zero after
  an accepted credential.
\<close>

lemma spec_counter_cases:
  "counter k (fst (snd (loginUser (specEnv D lockNow vp tok) clk username pw st res)))
     = counter k st
   \<or> counter k (fst (snd (loginUser (specEnv D lockNow vp tok) clk username pw st res)))
     = counter k st + 1
   \<or> (k = username
      \<and> counter k (fst (snd (loginUser (specEnv D lockNow vp tok) clk username pw st res))) = 0
      \<and> (\<exists>usr. account username st = Some usr
            \<and> v_isEmailVerified (u_verification usr) \<and> v_isPhoneVerified (u_verification usr)
            \<and> \<not> isAccountBlocked (atBlockedCheck clk) usr
            \<and> vp usr pw = Inr True))"
proof (cases "account username st")
  case None
  then have "getUserByUsername (specEnv D lockNow vp tok) username st = Inr None"
    by (simp add: spec_lookup)
  from loginUser_notFound [OF this] show ?thesis
    by simp
next
  case (Some usr)
  show ?thesis
  proof (cases "v_isEmailVerified (u_verification usr) \<and> v_isPhoneVerified (u_verification usr)
                 \<and> \<not> isAccountBlocked (atBlockedCheck clk) usr")
    case False
    from spec_turned_away [OF Some False] show ?thesis
      by simp
  next
    case True
    then have email: "v_isEmailVerified (u_verification usr)"
      and phone: "v_isPhoneVerified (u_verification usr)"
      and nb: "\<not> isAccountBlocked (atBlockedCheck clk) usr"
      by simp_all
    show ?thesis
    proof (cases "vp usr pw")
      case (Inl e)
      from spec_fault [where vp = vp, OF Some email phone nb Inl] show ?thesis
        by simp
    next
      case (Inr ok)
      show ?thesis
      proof (cases ok)
        case True
        with Inr have accepted: "vp usr pw = Inr True"
          by simp
        show ?thesis
        proof (cases "k = username")
          case True
          then show ?thesis
            using Some email phone nb accepted
            by (simp add: spec_correct [where vp = vp, OF Some email phone nb accepted]
                counter_updateRows_same [OF Some] orZero_Some)
        next
          case False
          then show ?thesis
            by (simp add: spec_correct [where vp = vp, OF Some email phone nb accepted]
                counter_updateRows_other)
        qed
      next
        case False
        with Inr have rejected: "vp usr pw = Inr False"
          by simp
        show ?thesis
        proof (cases "k = username")
          case True
          have "counter username st = orZero (v_loginAttempts (u_verification usr))"
            by (simp add: counter_def Some)
          then show ?thesis
            using True
            by (simp add: spec_incorrect [where vp = vp, OF Some email phone nb rejected]
                counter_updateRows_same [OF Some]
                counter_updateRows_same [OF account_after_update [OF Some]] orZero_Some)
        next
          case False
          then show ?thesis
            by (simp add: spec_incorrect [where vp = vp, OF Some email phone nb rejected]
                counter_updateRows_other)
        qed
      qed
    qed
  qed
qed

text \<open>
  C1. For an account with both flags set that is not locked at the first clock
  reading, and a credential that the check rejects, the request resolves and persists the counter
  plus one. If the new count reaches 5, the lock collaborator sets the expiry and the
  only response is the account-locked rejection; otherwise the only response is the
  incorrect-credential rejection carrying the new count, and the account, its expiry
  unchanged, is still not locked.
\<close>

theorem incorrect_credential_counts_then_locks:
  assumes "account username st = Some usr"
    and "v_isEmailVerified (u_verification usr)" and "v_isPhoneVerified (u_verification usr)"
    and "\<not> isAccountBlocked (atBlockedCheck clk) usr"
    and "vp usr pw = Inr False"
  shows "let n = orZero (v_loginAttempts (u_verification usr)) + 1 in
         case loginUser (specEnv D lockNow vp tok) clk username pw st [] of
           (c, st', res) \<Rightarrow>
             c = Resolved
             \<and> (if 5 \<le> n then
                  res = [\<lparr>status = 400, body = Msg AccountLocked\<rparr>]
                  \<and> account username st' =
                      Some (usr\<lparr>u_verification := (u_verification usr)
                              \<lparr>v_loginAttempts := Some n,
                               v_blockExpiration := Some (lockNow + D)\<rparr>\<rparr>)
                else
                  res = [\<lparr>status = 400, body = Msg (IncorrectPassword n)\<rparr>]
                  \<and> account username st' =
                      Some (usr\<lparr>u_verification := (u_verification usr)
                              \<lparr>v_loginAttempts := Some n\<rparr>\<rparr>)
                  \<and> \<not> isAccountBlocked (atBlockedCheck clk)
                        (usr\<lparr>u_verification := (u_verification usr)
                              \<lparr>v_loginAttempts := Some n\<rparr>\<rparr>))"
  using assms(1,4)
  by (simp add: spec_incorrect [where vp = vp, OF assms] account_updateRows_same
      isAccountBlocked_def Let_def)

theorem incorrect_credential_counts_then_locks_witness:
  "loginUser (sampleEnv 1000) (clockAt 1000) (ascii ''ana'') (ascii ''guess'')
       [sampleUser True True (Some 4) None] [] =
     (Resolved, [sampleUser True True (Some 5) (Some 181000)],
      [\<lparr>status = 400, body = Msg AccountLocked\<rparr>])
   \<and> loginUser (sampleEnv 1000) (clockAt 1000) (ascii ''ana'') (ascii ''guess'')
       [sampleUser True True (Some 2) None] [] =
     (Resolved, [sampleUser True True (Some 3) None],
      [\<lparr>status = 400, body = Msg (IncorrectPassword 3)\<rparr>])"
proof -
  let ?four = "sampleUser True True (Some 4) None"
  let ?two = "sampleUser True True (Some 2) None"
  have found: "account (ascii ''ana'') [?four] = Some ?four"
    "account (ascii ''ana'') [?two] = Some ?two"
    by (simp_all add: sample_defs)
  have flags: "v_isEmailVerified (u_verification ?four)" "v_isPhoneVerified (u_verification ?four)"
    "v_isEmailVerified (u_verification ?two)" "v_isPhoneVerified (u_verification ?two)"
    by (simp_all add: sampleUser_def)
  have unlocked: "\<not> isAccountBlocked (atBlockedCheck (clockAt 1000)) ?four"
    "\<not> isAccountBlocked (atBlockedCheck (clockAt 1000)) ?two"
    by (simp_all add: sample_defs)
  have rejected: "sampleValidate ?four (ascii ''guess'') = Inr False"
    "sampleValidate ?two (ascii ''guess'') = Inr False"
    by (simp_all add: sample_defs)
  from incorrect_credential_counts_then_locks [where vp = sampleValidate,
      OF found(1) flags(1,2) unlocked(1) rejected(1), of 180000 1000 sampleToken]
    incorrect_credential_counts_then_locks [where vp = sampleValidate,
      OF found(2) flags(3,4) unlocked(2) rejected(2), of 180000 1000 sampleToken]
  show ?thesis
    by (simp add: sample_defs loginUser_def verifyUser_def isUserVerified_eq
        handleBlockExpiration_def handleIncorrectPassword_def incrementLoginAttempts_def
        handleLockedAccount_def MAX_LOGIN_ATTEMPTS_def sendBadRequest_def json_def)
qed

text \<open>
  C3. For an account with both flags set that is not locked, a credential that the check accepts and a token that is issued, the request resolves, the counter
  is stored as 0, and the only response is the success body with status 200. Its message
  is the recovery text and its extra field is present when the credential has exactly
  8 code units; otherwise the message is the ordinary one and the field is absent.
\<close>

theorem correct_credential_resets_and_marks_recovery:
  assumes "account username st = Some usr"
    and "v_isEmailVerified (u_verification usr)" and "v_isPhoneVerified (u_verification usr)"
    and "\<not> isAccountBlocked (atBlockedCheck clk) usr"
    and "vp usr pw = Inr True"
    and "tok usr = Inr token"
  shows "case loginUser (specEnv D lockNow vp tok) clk username pw st [] of
           (c, st', res) \<Rightarrow>
             c = Resolved
             \<and> account username st' =
                 Some (usr\<lparr>u_verification := (u_verification usr)\<lparr>v_loginAttempts := Some 0\<rparr>\<rparr>)
             \<and> res = [\<lparr>status = 200, body =
                   Login (if length pw = 8 then RecoveryLogin else UserLoggedIn) token
                     (u_id usr) (u_rol usr)
                     (if length pw = 8 then Some (ascii ''randomPassword'') else None)\<rparr>]"
  using assms(6)
  by (simp add: spec_correct [where vp = vp, OF assms(1-5)] account_after_update [OF assms(1)])

theorem correct_credential_resets_and_marks_recovery_witness:
  "loginUser (sampleEnv 0) (clockAt 1000) (ascii ''ana'') (ascii ''hunter22'')
       [sampleUser True True (Some 3) None] [] =
     (Resolved, [sampleUser True True (Some 0) None],
      [\<lparr>status = 200, body = Login RecoveryLogin (ascii ''jwt-ana'') 7 (ascii ''user'')
          (Some (ascii ''randomPassword''))\<rparr>])
   \<and> loginUser (sampleEnv 0) (clockAt 1000) (ascii ''ana'') (ascii ''correct horse'')
       [sampleUser True True (Some 3) None] [] =
     (Resolved, [sampleUser True True (Some 0) None],
      [\<lparr>status = 200, body = Login UserLoggedIn (ascii ''jwt-ana'') 7 (ascii ''user'') None\<rparr>])"
proof -
  let ?u = "sampleUser True True (Some 3) None"
  have found: "account (ascii ''ana'') [?u] = Some ?u"
    by (simp add: sample_defs)
  have flags: "v_isEmailVerified (u_verification ?u)" "v_isPhoneVerified (u_verification ?u)"
    by (simp_all add: sampleUser_def)
  have unlocked: "\<not> isAccountBlocked (atBlockedCheck (clockAt 1000)) ?u"
    by (simp add: sample_defs)
  have accepted: "sampleValidate ?u (ascii ''hunter22'') = Inr True"
    "sampleValidate ?u (ascii ''correct horse'') = Inr True"
    by (simp_all add: sample_defs)
  have issued: "sampleToken ?u = Inr (ascii ''jwt-ana'')"
    by (simp add: sample_defs)
  from correct_credential_resets_and_marks_recovery [where vp = sampleValidate
      and tok = sampleToken, OF found flags unlocked accepted(1) issued, of 180000 0]
    correct_credential_resets_and_marks_recovery [where vp = sampleValidate
      and tok = sampleToken, OF found flags unlocked accepted(2) issued, of 180000 0]
  show ?thesis
    by (simp add: sample_defs loginUser_def verifyUser_def isUserVerified_eq
        handleBlockExpiration_def handleSuccessfulLogin_def json_def)
qed

text \<open>
  C10. For an account with both flags set that is not locked and whose counter is
  missing, a credential that the check rejects makes the counting step compute 1 and
  hand 1 to the persistence call; when that call returns, the request resolves with the
  storage it returned, and the only response is the incorrect-credential rejection
  carrying 1, with status 400.
\<close>

theorem missing_counter_counts_as_zero:
  assumes "getUserByUsername env username st = Inr (Some usr)"
    and "v_isEmailVerified (u_verification usr)" and "v_isPhoneVerified (u_verification usr)"
    and "\<not> isAccountBlocked (atBlockedCheck clk) usr"
    and "validatePassword env usr pw = Inr False"
    and "v_loginAttempts (u_verification usr) = None"
    and "verification_update env usr 1 st = Inr st1"
  shows "incrementLoginAttempts env usr st = (Inr 1, st1)
         \<and> loginUser env clk username pw st [] =
             (Resolved, st1, [\<lparr>status = 400, body = Msg (IncorrectPassword 1)\<rparr>])"
proof -
  have zero: "orZero (v_loginAttempts (u_verification usr)) = 0"
    using assms(6) by (simp add: orZero_def)
  have counted: "incrementLoginAttempts env usr st = (Inr 1, st1)"
    using assms(7) by (simp add: incrementLoginAttempts_def zero)
  have stored: "verification_update env usr
                  (orZero (v_loginAttempts (u_verification usr)) + 1) st = Inr st1"
    using assms(7) by (simp add: zero)
  from loginUser_incorrect [OF verifyUser_pass [OF assms(1-4), of pw "[]"] assms(5) stored]
  show ?thesis
    by (simp add: zero counted)
qed

theorem missing_counter_counts_as_zero_witness:
  "loginUser (sampleEnv 0) (clockAt 1000) (ascii ''ana'') (ascii ''guess'')
       [sampleUser True True None None] [] =
     (Resolved, [sampleUser True True (Some 1) None],
      [\<lparr>status = 400, body = Msg (IncorrectPassword 1)\<rparr>])"
proof -
  let ?u = "sampleUser True True None None"
  have found: "getUserByUsername (sampleEnv 0) (ascii ''ana'') [?u] = Inr (Some ?u)"
    by (simp add: sample_defs)
  have flags: "v_isEmailVerified (u_verification ?u)" "v_isPhoneVerified (u_verification ?u)"
    by (simp_all add: sampleUser_def)
  have unlocked: "\<not> isAccountBlocked (atBlockedCheck (clockAt 1000)) ?u"
    by (simp add: sample_defs)
  have rejected: "validatePassword (sampleEnv 0) ?u (ascii ''guess'') = Inr False"
    by (simp add: sample_defs)
  have missing: "v_loginAttempts (u_verification ?u) = None"
    by (simp add: sampleUser_def)
  have stored: "verification_update (sampleEnv 0) ?u 1 [?u]
                  = Inr [sampleUser True True (Some 1) None]"
    by (simp add: sample_defs)
  from missing_counter_counts_as_zero [OF found flags unlocked rejected missing stored]
  show ?thesis
    by simp
qed

text \<open>
  C7. After any request, with any username, credential, clock readings and storage, the
  counter of every account is what it was, or one more, or it is the requested
  account's counter set to 0 once the check has accepted the credential of a verified,
  unlocked account. The reset comes before the token is issued: that request is answered
  with the success body, or with the status 500 error body when issuing the token throws.
\<close>

theorem counter_never_decreases_but_by_reset:
  "case loginUser (specEnv D lockNow vp tok) clk username pw st [] of
     (c, st', res) \<Rightarrow>
       \<forall>k. counter k st' = counter k st
         \<or> counter k st' = counter k st + 1
         \<or> (k = username \<and> counter k st' = 0
            \<and> (\<exists>usr. account username st = Some usr
                  \<and> v_isEmailVerified (u_verification usr)
                  \<and> v_isPhoneVerified (u_verification usr)
                  \<and> \<not> isAccountBlocked (atBlockedCheck clk) usr
                  \<and> vp usr pw = Inr True
                  \<and> c = Resolved
                  \<and> res =
                      (case tok usr of
                         Inl e \<Rightarrow> [\<lparr>status = 500, body = MsgError DatabaseError e\<rparr>]
                       | Inr token \<Rightarrow> [\<lparr>status = 200, body =
                           Login (if length pw = 8 then RecoveryLogin else UserLoggedIn) token
                             (u_id usr) (u_rol usr)
                             (if length pw = 8 then Some (ascii ''randomPassword'')
                              else None)\<rparr>])))"
proof -
  obtain c st' res
    where run: "loginUser (specEnv D lockNow vp tok) clk username pw st [] = (c, st', res)"
    by (cases "loginUser (specEnv D lockNow vp tok) clk username pw st []") auto
  have "counter k st' = counter k st
        \<or> counter k st' = counter k st + 1
        \<or> (k = username \<and> counter k st' = 0
           \<and> (\<exists>usr. account username st = Some usr
                 \<and> v_isEmailVerified (u_verification usr)
                 \<and> v_isPhoneVerified (u_verification usr)
                 \<and> \<not> isAccountBlocked (atBlockedCheck clk) usr
                 \<and> vp usr pw = Inr True
                 \<and> c = Resolved
                 \<and> res =
                     (case tok usr of
                        Inl e \<Rightarrow> [\<lparr>status = 500, body = MsgError DatabaseError e\<rparr>]
                      | Inr token \<Rightarrow> [\<lparr>status = 200, body =
                          Login (if length pw = 8 then RecoveryLogin else UserLoggedIn) token
                            (u_id usr) (u_rol usr)
                            (if length pw = 8 then Some (ascii ''randomPassword'')
                             else None)\<rparr>])))"
    for k
  proof -
    from spec_counter_cases [of k D lockNow vp tok clk username pw st "[]"]
    consider "counter k st' = counter k st"
      | "counter k st' = counter k st + 1"
      | usr where "k = username" and "counter k st' = 0" and "account username st = Some usr"
        and "v_isEmailVerified (u_verification usr)" and "v_isPhoneVerified (u_verification usr)"
        and "\<not> isAccountBlocked (atBlockedCheck clk) usr" and "vp usr pw = Inr True"
      unfolding run by auto
    then show ?thesis
    proof cases
      case 1
      then show ?thesis by simp
    next
      case 2
      then show ?thesis by simp
    next
      case 3
      from spec_correct [where vp = vp, OF 3(3-7), of D lockNow tok "[]"] run
      have "c = Resolved"
        and "res =
          (case tok usr of
             Inl e \<Rightarrow> [\<lparr>status = 500, body = MsgError DatabaseError e\<rparr>]
           | Inr token \<Rightarrow> [\<lparr>status = 200, body =
               Login (if length pw = 8 then RecoveryLogin else UserLoggedIn) token
                 (u_id usr) (u_rol usr)
                 (if length pw = 8 then Some (ascii ''randomPassword'') else None)\<rparr>])"
        by (auto split: sum.splits)
      with 3 show ?thesis by simp
    qed
  qed
  then show ?thesis
    by (simp add: run)
qed

theorem counter_never_decreases_but_by_reset_witness:
  "counter (ascii ''ana'') [sampleUser True True (Some 3) None] = 3
   \<and> counter (ascii ''ana'') (fst (snd (loginUser (sampleEnv 0) (clockAt 7) (ascii ''ana'')
        (ascii ''guess'') [sampleUser True True (Some 3) None] []))) = 4
   \<and> counter (ascii ''ana'') (fst (snd (loginUser (sampleEnv 0) (clockAt 7) (ascii ''ana'')
        (ascii ''hunter22'') [sampleUser True True (Some 3) None] []))) = 0
   \<and> counter (ascii ''ana'') (fst (snd (loginUser (sampleEnv 0) (clockAt 7) (ascii ''bob'')
        (ascii ''hunter22'') [sampleUser True True (Some 3) None] []))) = 3
   \<and> counter (ascii ''ana'')
        (fst (snd (loginUser (specEnv 180000 0 sampleValidate failingToken) (clockAt 7)
          (ascii ''ana'') (ascii ''hunter22'') [sampleUser True True (Some 3) None] []))) = 0"
  using counter_never_decreases_but_by_reset [where D = 180000 and lockNow = 0
      and vp = sampleValidate and tok = sampleToken and clk = "clockAt 7"
      and username = "ascii ''ana''" and pw = "ascii ''guess''"
      and st = "[sampleUser True True (Some 3) None]"]
    counter_never_decreases_but_by_reset [where D = 180000 and lockNow = 0
      and vp = sampleValidate and tok = sampleToken and clk = "clockAt 7"
      and username = "ascii ''ana''" and pw = "ascii ''hunter22''"
      and st = "[sampleUser True True (Some 3) None]"]
    counter_never_decreases_but_by_reset [where D = 180000 and lockNow = 0
      and vp = sampleValidate and tok = sampleToken and clk = "clockAt 7"
      and username = "ascii ''bob''" and pw = "ascii ''hunter22''"
      and st = "[sampleUser True True (Some 3) None]"]
    counter_never_decreases_but_by_reset [where D = 180000 and lockNow = 0
      and vp = sampleValidate and tok = failingToken and clk = "clockAt 7"
      and username = "ascii ''ana''" and pw = "ascii ''hunter22''"
      and st = "[sampleUser True True (Some 3) None]"]
  by (simp add: sample_defs failingToken_def loginUser_def verifyUser_def isUserVerified_eq
      handleBlockExpiration_def handleIncorrectPassword_def incrementLoginAttempts_def
      handleLockedAccount_def handleSuccessfulLogin_def handleErrorResponse_def
      MAX_LOGIN_ATTEMPTS_def sendBadRequest_def json_def)

text \<open>
  The counter can drop in a request that does not end in success. The account has a
  count of 3, the check accepts the credential, and issuing the token throws: the
  request is answered with status 500 and the count stored afterwards is 0.
\<close>

theorem counter_reset_without_success:
  "loginUser (specEnv 180000 0 sampleValidate failingToken) (clockAt 7) (ascii ''ana'')
       (ascii ''hunter22'') [sampleUser True True (Some 3) None] [] =
     (Resolved, [sampleUser True True (Some 0) None],
      [\<lparr>status = 500, body = MsgError DatabaseError (Thrown 1)\<rparr>])
   \<and> counter (ascii ''ana'') [sampleUser True True (Some 3) None] = 3
   \<and> counter (ascii ''ana'') [sampleUser True True (Some 0) None] = 0
   \<and> counter (ascii ''ana'') [sampleUser True True (Some 0) None]
       < counter (ascii ''ana'') [sampleUser True True (Some 3) None]"
  by (simp add: sample_defs failingToken_def loginUser_def verifyUser_def isUserVerified_eq
      handleBlockExpiration_def handleSuccessfulLogin_def handleErrorResponse_def json_def)

text \<open>
  C9. An account with both flags set, not locked, with a count of at least 4, gets a credential that the check rejects: the response is the account-locked
  rejection, the expiry is set, and the stored count is the old count plus one, so at
  least 5. A later request whose first clock reading is at or after that expiry, again with a
  rejected credential, is answered with the account-locked rejection too; the count
  goes up by one more and a new expiry is set. Whatever request follows the first lock,
  the count of that account is below 5 afterwards only if the check accepted the
  credential.
\<close>

theorem relock_after_expiry:
  assumes "account username st = Some usr"
    and "v_isEmailVerified (u_verification usr)" and "v_isPhoneVerified (u_verification usr)"
    and "\<not> isAccountBlocked (atBlockedCheck clk1) usr"
    and "4 \<le> orZero (v_loginAttempts (u_verification usr))"
    and "\<And>u. vp u pw1 = Inr False" and "\<And>u. vp u pw2 = Inr False"
    and "T1 + D \<le> atBlockedCheck clk2"
  shows "let n = orZero (v_loginAttempts (u_verification usr)) in
         case loginUser (specEnv D T1 vp tok) clk1 username pw1 st [] of
           (c1, st1, res1) \<Rightarrow>
             res1 = [\<lparr>status = 400, body = Msg AccountLocked\<rparr>]
             \<and> account username st1 =
                 Some (usr\<lparr>u_verification := (u_verification usr)
                         \<lparr>v_loginAttempts := Some (n + 1),
                          v_blockExpiration := Some (T1 + D)\<rparr>\<rparr>)
             \<and> 5 \<le> counter username st1
             \<and> (case loginUser (specEnv D T2 vp tok) clk2 username pw2 st1 [] of
                  (c2, st2, res2) \<Rightarrow>
                    res2 = [\<lparr>status = 400, body = Msg AccountLocked\<rparr>]
                    \<and> account username st2 =
                        Some (usr\<lparr>u_verification := (u_verification usr)
                                \<lparr>v_loginAttempts := Some (n + 2),
                                 v_blockExpiration := Some (T2 + D)\<rparr>\<rparr>))
             \<and> (\<forall>clk vp' tok' pw T.
                   counter username
                     (fst (snd (loginUser (specEnv D T vp' tok') clk username pw st1 []))) < 5
                   \<longrightarrow> (\<exists>u. account username st1 = Some u \<and> vp' u pw = Inr True))"
proof -
  define n where "n = orZero (v_loginAttempts (u_verification usr))"
  define usr1 where "usr1 = usr\<lparr>u_verification := (u_verification usr)
      \<lparr>v_loginAttempts := Some (n + 1), v_blockExpiration := Some (T1 + D)\<rparr>\<rparr>"
  define st1 where "st1 =
      updateRows username (\<lambda>v. v\<lparr>v_blockExpiration := Some (T1 + D)\<rparr>)
        (updateRows username (\<lambda>v. v\<lparr>v_loginAttempts := Some (n + 1)\<rparr>) st)"
  define st2 where "st2 =
      updateRows username (\<lambda>v. v\<lparr>v_blockExpiration := Some (T2 + D)\<rparr>)
        (updateRows username (\<lambda>v. v\<lparr>v_loginAttempts := Some (n + 2)\<rparr>) st1)"
  have n4: "4 \<le> n"
    using assms(5) by (simp add: n_def)
  have first: "loginUser (specEnv D T1 vp tok) clk1 username pw1 st [] =
                 (Resolved, st1, [\<lparr>status = 400, body = Msg AccountLocked\<rparr>])"
    using n4 spec_incorrect [where vp = vp, OF assms(1-4) assms(6), of D T1 tok "[]"]
    by (simp add: n_def st1_def)
  have acc1: "account username st1 = Some usr1"
    using assms(1) by (simp add: st1_def usr1_def account_updateRows_same)
  have count1: "counter username st1 = n + 1"
    by (simp add: counter_def acc1 usr1_def orZero_Some)
  have flags1: "v_isEmailVerified (u_verification usr1)" "v_isPhoneVerified (u_verification usr1)"
    using assms(2,3) by (simp_all add: usr1_def)
  have open1: "\<not> isAccountBlocked (atBlockedCheck clk2) usr1"
    using assms(8) by (simp add: isAccountBlocked_def usr1_def)
  have second: "loginUser (specEnv D T2 vp tok) clk2 username pw2 st1 [] =
                  (Resolved, st2, [\<lparr>status = 400, body = Msg AccountLocked\<rparr>])"
    using n4 spec_incorrect [where vp = vp, OF acc1 flags1 open1 assms(7), of D T2 tok "[]"]
    by (simp add: st2_def usr1_def orZero_Some add.commute)
  have acc2: "account username st2 =
                Some (usr\<lparr>u_verification := (u_verification usr)
                        \<lparr>v_loginAttempts := Some (n + 2),
                         v_blockExpiration := Some (T2 + D)\<rparr>\<rparr>)"
    using acc1 by (simp add: st2_def usr1_def account_updateRows_same)
  have only_success:
    "\<exists>u. account username st1 = Some u \<and> vp' u pw = Inr True"
    if "counter username
          (fst (snd (loginUser (specEnv D T vp' tok') clk username pw st1 []))) < 5"
    for clk vp' tok' pw T
    using spec_counter_cases [of username D T vp' tok' clk username pw st1 "[]"] that n4 count1
    by auto
  have reset_only:
    "\<forall>clk vp' tok' pw T.
       counter username
         (fst (snd (loginUser (specEnv D T vp' tok') clk username pw st1 []))) < 5
       \<longrightarrow> (\<exists>u. account username st1 = Some u \<and> vp' u pw = Inr True)"
    using only_success by blast
  have locked_twice:
    "account username st1 =
       Some (usr\<lparr>u_verification := (u_verification usr)
               \<lparr>v_loginAttempts := Some (n + 1), v_blockExpiration := Some (T1 + D)\<rparr>\<rparr>)
     \<and> 5 \<le> counter username st1
     \<and> account username st2 =
         Some (usr\<lparr>u_verification := (u_verification usr)
                 \<lparr>v_loginAttempts := Some (n + 2), v_blockExpiration := Some (T2 + D)\<rparr>\<rparr>)"
    using n4 by (simp add: acc1 acc2 count1 usr1_def)
  show ?thesis
    unfolding Let_def n_def [symmetric] first second prod.case
    using locked_twice reset_only by blast
qed

theorem relock_after_expiry_witness:
  "loginUser (sampleEnv 1000) (clockAt 1000) (ascii ''ana'') (ascii ''guess'')
       [sampleUser True True (Some 4) None] [] =
     (Resolved, [sampleUser True True (Some 5) (Some 181000)],
      [\<lparr>status = 400, body = Msg AccountLocked\<rparr>])
   \<and> loginUser (sampleEnv 181000) (clockAt 181000) (ascii ''ana'') (ascii ''again'')
       [sampleUser True True (Some 5) (Some 181000)] [] =
     (Resolved, [sampleUser True True (Some 6) (Some 361000)],
      [\<lparr>status = 400, body = Msg AccountLocked\<rparr>])"
proof -
  let ?u = "sampleUser True True (Some 4) None"
  have found: "account (ascii ''ana'') [?u] = Some ?u"
    by (simp add: sample_defs)
  have flags: "v_isEmailVerified (u_verification ?u)" "v_isPhoneVerified (u_verification ?u)"
    by (simp_all add: sampleUser_def)
  have unlocked: "\<not> isAccountBlocked (atBlockedCheck (clockAt 1000)) ?u"
    by (simp add: sample_defs)
  have count: "4 \<le> orZero (v_loginAttempts (u_verification ?u))"
    by (simp add: sample_defs)
  have rejected: "sampleValidate u (ascii ''guess'') = Inr False"
    "sampleValidate u (ascii ''again'') = Inr False" for u
    by (simp_all add: sample_defs)
  have expired: "1000 + 180000 \<le> atBlockedCheck (clockAt 181000)"
    by (simp add: clockAt_def)
  from relock_after_expiry [where vp = sampleValidate and ?T2.0 = 181000 and tok = sampleToken,
      OF found flags unlocked count rejected expired]
  show ?thesis
    by (simp add: sample_defs loginUser_def verifyUser_def isUserVerified_eq
        handleBlockExpiration_def handleIncorrectPassword_def incrementLoginAttempts_def
        handleLockedAccount_def MAX_LOGIN_ATTEMPTS_def sendBadRequest_def json_def)
qed

text \<open>
  C5. An account with neither flag set: one request calls the response twice, first
  with the email-not-verified rejection, then with the phone-not-verified rejection.
\<close>

theorem both_flags_unset_two_responses:
  "loginUser (sampleEnv 0) (clockAt 5) (ascii ''ana'') (ascii ''hunter22'')
       [sampleUser False False (Some 0) None] [] =
     (Resolved, [sampleUser False False (Some 0) None],
      [\<lparr>status = 400, body = Msg UserNotVerified\<rparr>,
       \<lparr>status = 400, body = Msg NumberNotVerified\<rparr>])"
  by (simp add: sample_defs loginUser_def verifyUser_def isUserVerified_def
      isEmailVerified_def isPhoneVerified_def handleUnverifiedUser_def json_def)

end
